theory Spec2Isabelle
  imports Main
begin

section \<open>Python values, exceptions and effects\<close>

text \<open>
  The module \<^verbatim>\<open>snorkel/preprocess/core.py\<close> defines the class \<^verbatim>\<open>preprocessor\<close>, whose
  \<^verbatim>\<open>__call__\<close> memoizes a chain of transformations of a data point, together with the two
  empty marker classes \<^verbatim>\<open>Preprocessor\<close> and \<^verbatim>\<open>LambdaPreprocessor\<close>.

  A Python callable may raise, and whatever it changed before raising stays changed. It is
  therefore a function from its argument and the state of the interpreter (the world
  \<open>'w\<close>: the heap of objects and the state of the other instances) to an outcome and the
  new world. The outcome is \<open>Inl e\<close> for a raised exception and \<open>Inr v\<close> for a returned
  value.

  \<^verbatim>\<open>DataPoint\<close> is \<^verbatim>\<open>typing.Any\<close>, the call returns \<^verbatim>\<open>Optional[DataPoint]\<close> and a pre-step
  hands its result, \<^verbatim>\<open>None\<close> included, to the next one: a value is a \<open>'d option\<close>, where
  \<open>None\<close> is Python's \<^verbatim>\<open>None\<close> and \<open>Some d\<close> is the data point (object reference) \<open>d\<close>.
\<close>

datatype error = Exception string

type_synonym ('w, 'a, 'b) callable = "'a \<Rightarrow> 'w \<Rightarrow> (error + 'b) \<times> 'w"

text \<open>
  An element of \<^verbatim>\<open>self._pre\<close>: an object that can be called on a data point and that
  has a \<^verbatim>\<open>repr\<close>.
\<close>

record ('w, 'd) mapper =
  mapper_call :: "('w, 'd option, 'd option) callable"
  mapper_repr :: string

text \<open>
  The attributes of \<^verbatim>\<open>self\<close> that \<^verbatim>\<open>__call__\<close> and \<^verbatim>\<open>__repr__\<close> read and write.
  \<open>class_name\<close> is \<^verbatim>\<open>type(self).__name__\<close>. The methods \<^verbatim>\<open>_memoize_key\<close> and
  \<^verbatim>\<open>_generate_mapped_data_point\<close> come from the base classes in \<^verbatim>\<open>snorkel.map\<close>; they are
  fields here, so that every theorem holds for whatever they do. \<^verbatim>\<open>_cache\<close> is a dict
  from keys to values; a key bound to \<^verbatim>\<open>None\<close> is \<open>cache self k = Some None\<close>, an absent
  key is \<open>cache self k = None\<close>. The transformations act on the world and have no access
  to the attributes of \<^verbatim>\<open>self\<close>.
\<close>

record ('w, 'd, 'k) preprocessor =
  class_name :: string
  name :: string
  pre :: "('w, 'd) mapper list"
  memoize :: bool
  memoize_key :: "('w, 'd option, 'k) callable"
  generate_mapped_data_point :: "('w, 'd option, 'd option) callable"
  cache :: "'k \<rightharpoonup> 'd option"

section \<open>\<^verbatim>\<open>preprocessor.__call__\<close>\<close>

text \<open>
  Lines 94-95: \<^verbatim>\<open>for mapper in self._pre: x_mapped = mapper(x_mapped)\<close>. An exception
  raised by a mapper ends the loop.
\<close>

fun run_pre :: "('w, 'd) mapper list \<Rightarrow> ('w, 'd option, 'd option) callable" where
  "run_pre [] v w = (Inr v, w)"
| "run_pre (m # ms) v w =
     (case mapper_call m v w of
        (Inl e, w') \<Rightarrow> (Inl e, w')
      | (Inr v', w') \<Rightarrow> run_pre ms v' w')"

text \<open>
  Lines 92-96: the value of \<^verbatim>\<open>x_mapped\<close> after the deep copy, the pre-steps and the core
  mapping function. \<^verbatim>\<open>copy.deepcopy\<close> belongs to the standard library and is the
  parameter \<open>deepcopy\<close>.
\<close>

definition x_mapped ::
  "('w, 'd option, 'd option) callable \<Rightarrow> ('w, 'd, 'k) preprocessor \<Rightarrow>
   ('w, 'd option, 'd option) callable" where
  "x_mapped deepcopy self x w =
     (case deepcopy x w of
        (Inl e, w1) \<Rightarrow> (Inl e, w1)
      | (Inr c, w1) \<Rightarrow>
          (case run_pre (pre self) c w1 of
             (Inl e, w2) \<Rightarrow> (Inl e, w2)
           | (Inr p, w2) \<Rightarrow> generate_mapped_data_point self p w2))"

text \<open>
  Lines 85-99. The result is the outcome of the call, \<^verbatim>\<open>self\<close> after the call and the
  world after the call.
\<close>

definition call ::
  "('w, 'd option, 'd option) callable \<Rightarrow> ('w, 'd, 'k) preprocessor \<Rightarrow> 'd option \<Rightarrow> 'w \<Rightarrow>
   (error + 'd option) \<times> ('w, 'd, 'k) preprocessor \<times> 'w" where
  "call deepcopy self x w =
     (if memoize self then
        (case memoize_key self x w of
           (Inl e, w1) \<Rightarrow> (Inl e, self, w1)
         | (Inr x_hashable, w1) \<Rightarrow>
             (case cache self x_hashable of
                Some v \<Rightarrow> (Inr v, self, w1)
              | None \<Rightarrow>
                  (case x_mapped deepcopy self x w1 of
                     (Inl e, w2) \<Rightarrow> (Inl e, self, w2)
                   | (Inr v, w2) \<Rightarrow>
                       (Inr v, self\<lparr>cache := (cache self)(x_hashable \<mapsto> v)\<rparr>, w2))))
      else
        (case x_mapped deepcopy self x w of
           (Inl e, w2) \<Rightarrow> (Inl e, self, w2)
         | (Inr v, w2) \<Rightarrow> (Inr v, self, w2)))"

text \<open>
  The life of an instance: one call after the other, each on the instance and the world the
  previous one left. The caller may catch an exception and go on, so a raised exception
  does not end the sequence.
\<close>

fun calls ::
  "('w, 'd option, 'd option) callable \<Rightarrow> ('w, 'd, 'k) preprocessor \<Rightarrow> 'd option list \<Rightarrow> 'w \<Rightarrow>
   ('w, 'd, 'k) preprocessor \<times> 'w" where
  "calls deepcopy self [] w = (self, w)"
| "calls deepcopy self (x # xs) w =
     (case call deepcopy self x w of (r, self', w') \<Rightarrow> calls deepcopy self' xs w')"

text \<open>
  The specification writes the result of a call as \<^verbatim>\<open>g(f2(f1(copy(x))))\<close>. For callables
  that may raise and that act on the world, \<^verbatim>\<open>g(f(x))\<close> is \<open>then_call f g x\<close>: \<open>g\<close> runs on
  what \<open>f\<close> returned, in the world \<open>f\<close> left, and not at all when \<open>f\<close> raised.
\<close>

definition then_call ::
  "('w, 'a, 'b) callable \<Rightarrow> ('w, 'b, 'c) callable \<Rightarrow> ('w, 'a, 'c) callable" where
  "then_call f g x w =
     (case f x w of
        (Inl e, w') \<Rightarrow> (Inl e, w')
      | (Inr y, w') \<Rightarrow> g y w')"

section \<open>\<^verbatim>\<open>preprocessor.__repr__\<close>\<close>

text \<open>
  Formatting a list in an f-string gives the \<^verbatim>\<open>repr\<close> of its elements, separated by a
  comma and a space, between square brackets.
\<close>

fun join :: "string \<Rightarrow> string list \<Rightarrow> string" where
  "join sep [] = []"
| "join sep [s] = s"
| "join sep (s # t # ss) = s @ sep @ join sep (t # ss)"

definition list_repr :: "string list \<Rightarrow> string" where
  "list_repr rs = ''['' @ join '', '' rs @ '']''"

text \<open>Lines 101-103.\<close>

definition repr :: "('w, 'd, 'k) preprocessor \<Rightarrow> string" where
  "repr self =
     (let pre_str = '', Pre: '' @ list_repr (map mapper_repr (pre self))
      in class_name self @ '' '' @ name self @ pre_str)"

section \<open>The marker classes\<close>

text \<open>
  A class has a name, a base class (the classes of this module have one base each) and the
  methods its body defines. Looking a method up on a class searches the class, then its
  base, as Python's method resolution does along a single line of inheritance. The base
  classes \<^verbatim>\<open>Mapper\<close> and \<^verbatim>\<open>LambdaMapper\<close> are defined in \<^verbatim>\<open>snorkel.map\<close>; they are the
  arguments of the two class definitions. The body of both classes is a docstring and
  \<^verbatim>\<open>pass\<close>: it defines no method.
\<close>

datatype 'm py_class =
  Class (cls_name: string) (cls_base: "'m py_class option") (cls_methods: "string \<rightharpoonup> 'm")

fun lookup_method :: "'m py_class \<Rightarrow> string \<Rightarrow> 'm option" where
  "lookup_method (Class n b ms) a =
     (case ms a of
        Some m \<Rightarrow> Some m
      | None \<Rightarrow> (case b of None \<Rightarrow> None | Some c \<Rightarrow> lookup_method c a))"

definition Preprocessor :: "'m py_class \<Rightarrow> 'm py_class" where
  "Preprocessor Mapper = Class ''Preprocessor'' (Some Mapper) Map.empty"

definition LambdaPreprocessor :: "'m py_class \<Rightarrow> 'm py_class" where
  "LambdaPreprocessor LambdaMapper = Class ''LambdaPreprocessor'' (Some LambdaMapper) Map.empty"

text \<open>The class \<^verbatim>\<open>preprocessor\<close>, in contrast, defines \<^verbatim>\<open>__call__\<close> and \<^verbatim>\<open>__repr__\<close>.\<close>

definition preprocessor_class :: "'m py_class \<Rightarrow> 'm \<Rightarrow> 'm \<Rightarrow> 'm py_class" where
  "preprocessor_class lambda_mapper call_method repr_method =
     Class ''preprocessor'' (Some lambda_mapper)
       [''__call__'' \<mapsto> call_method, ''__repr__'' \<mapsto> repr_method]"

section \<open>Objects, references and deep copies\<close>

text \<open>
  For the claims about mutation and object identity the world is a heap of records with
  named fields (the data points of the specification), addressed by their position, and
  the caches of the memoizing instances used as pre-steps, addressed by a number each.
  A reference is an address.
\<close>

type_synonym ref = nat

type_synonym obj = "(string \<times> string) list"

record world =
  objs :: "obj list"
  caches :: "nat \<Rightarrow> (obj option \<rightharpoonup> ref option)"

definition obj_at :: "world \<Rightarrow> ref \<Rightarrow> obj option" where
  "obj_at w r = (if r < length (objs w) then Some (objs w ! r) else None)"

text \<open>
  \<^verbatim>\<open>copy.deepcopy\<close> on such a record: a new object with the same fields. \<^verbatim>\<open>None\<close> is its
  own copy. A dangling reference does not exist in Python; here it raises.
\<close>

definition deepcopy_record :: "(world, ref option, ref option) callable" where
  "deepcopy_record v w =
     (case v of
        None \<Rightarrow> (Inr None, w)
      | Some r \<Rightarrow>
          (if r < length (objs w)
           then (Inr (Some (length (objs w))), w\<lparr>objs := objs w @ [objs w ! r]\<rparr>)
           else (Inl (Exception ''ReferenceError''), w)))"

text \<open>A memoization key that projects a data point to its fields.\<close>

definition fields_key :: "(world, ref option, obj option) callable" where
  "fields_key v w =
     (case v of
        None \<Rightarrow> (Inr None, w)
      | Some r \<Rightarrow>
          (if r < length (objs w)
           then (Inr (Some (objs w ! r)), w)
           else (Inl (Exception ''ReferenceError''), w)))"

text \<open>
  A mapping function in the style of the docstring's example
  (\<^verbatim>\<open>x.article = ...; return x\<close>): it sets a field of its argument in place and returns
  the argument.
\<close>

definition set_field :: "string \<Rightarrow> string \<Rightarrow> (world, ref option, ref option) callable" where
  "set_field f s v w =
     (case v of
        None \<Rightarrow> (Inl (Exception ''AttributeError''), w)
      | Some r \<Rightarrow>
          (if r < length (objs w)
           then (Inr (Some r), w\<lparr>objs := (objs w)[r := (f, s) # filter (\<lambda>p. fst p \<noteq> f) (objs w ! r)]\<rparr>)
           else (Inl (Exception ''ReferenceError''), w)))"

text \<open>The mapping function \<^verbatim>\<open>return x\<close>.\<close>

definition return_arg :: "('w, 'a, 'a) callable" where
  "return_arg v w = (Inr v, w)"

text \<open>A callable that raises whatever it is given.\<close>

definition raising :: "error \<Rightarrow> ('w, 'a, 'b) callable" where
  "raising e v w = (Inl e, w)"

text \<open>
  A mapping function with a counter embedded: it applies \<open>f\<close> and counts the call in the
  world, which is the counter.
\<close>

definition counted :: "('a \<Rightarrow> 'b) \<Rightarrow> (nat, 'a, 'b) callable" where
  "counted f v n = (Inr (f v), Suc n)"

text \<open>
  A \<^verbatim>\<open>preprocessor\<close> instance used as a pre-step of another one. Its \<^verbatim>\<open>__call__\<close> is the
  function \<open>call\<close> above; its cache lives in the world under the number \<open>i\<close>.
\<close>

definition stored_call ::
  "nat \<Rightarrow> (world, ref, obj option) preprocessor \<Rightarrow> (world, ref option, ref option) callable" where
  "stored_call i m v w =
     (case call deepcopy_record (m\<lparr>cache := caches w i\<rparr>) v w of
        (r, m', w') \<Rightarrow> (r, w'\<lparr>caches := (caches w')(i := cache m')\<rparr>))"

definition as_mapper ::
  "nat \<Rightarrow> (world, ref, obj option) preprocessor \<Rightarrow> (world, ref) mapper" where
  "as_mapper i m = \<lparr>mapper_call = stored_call i m, mapper_repr = repr m\<rparr>"

text \<open>
  Isolation of the object at \<open>x\<close> from a callable \<open>f\<close> applied to \<open>v\<close>: in every world
  that satisfies \<open>I\<close>, the call keeps \<open>I\<close>, leaves the object at \<open>x\<close> as it is and does
  not return \<open>x\<close>.
\<close>

definition keeps_off ::
  "(world \<Rightarrow> bool) \<Rightarrow> ref \<Rightarrow> (world, 'a, ref option) callable \<Rightarrow> 'a \<Rightarrow> bool" where
  "keeps_off I x f v =
     (\<forall>w. I w \<longrightarrow>
        (case f v w of (r, w') \<Rightarrow> I w' \<and> obj_at w' x = obj_at w x \<and> r \<noteq> Inr (Some x)))"

text \<open>The same for the key function, which returns a key and no data point.\<close>

definition reads_only ::
  "(world \<Rightarrow> bool) \<Rightarrow> ref \<Rightarrow> (world, 'a, 'k) callable \<Rightarrow> 'a \<Rightarrow> bool" where
  "reads_only I x f v =
     (\<forall>w. I w \<longrightarrow> (case f v w of (r, w') \<Rightarrow> I w' \<and> obj_at w' x = obj_at w x))"

section \<open>Example instances\<close>

text \<open>
  A memoizing preprocessor on numbers (which are their own copies and their own keys). Its
  mapping function doubles its argument and counts its calls in the world.
\<close>

definition doubling :: "(nat, nat, nat option) preprocessor" where
  "doubling =
     \<lparr>class_name = ''preprocessor'', name = ''doubling'', pre = [], memoize = True,
      memoize_key = return_arg,
      generate_mapped_data_point = counted (map_option (\<lambda>n. 2 * n)),
      cache = Map.empty\<rparr>"

text \<open>A key function that is not injective: it keeps the last digit.\<close>

definition last_digit :: "(nat, nat option, nat option) callable" where
  "last_digit v w = (Inr (map_option (\<lambda>n. n mod 10) v), w)"

text \<open>
  A preprocessor on heap records, with memoization disabled: two pre-steps that set the
  field \<^verbatim>\<open>a\<close> one after the other, and a mapping function that sets the field \<^verbatim>\<open>b\<close>.
\<close>

definition tagger :: "(world, ref, obj option) preprocessor" where
  "tagger =
     \<lparr>class_name = ''preprocessor'', name = ''tagger'',
      pre = [\<lparr>mapper_call = set_field ''a'' ''1'', mapper_repr = ''f1''\<rparr>,
             \<lparr>mapper_call = set_field ''a'' ''2'', mapper_repr = ''f2''\<rparr>],
      memoize = False, memoize_key = fields_key,
      generate_mapped_data_point = set_field ''b'' ''3'',
      cache = Map.empty\<rparr>"

text \<open>A heap with one data point, and no cache filled.\<close>

definition one_point :: world where
  "one_point = \<lparr>objs = [[(''t'', ''A'')]], caches = (\<lambda>i. Map.empty)\<rparr>"

text \<open>
  A memoizing preprocessor whose mapping function returns its argument, and a preprocessor
  with memoization disabled that has the former as its only pre-step (its cache is number
  0 of the world) and marks its argument in place.
\<close>

definition keeper :: "(world, ref, obj option) preprocessor" where
  "keeper =
     \<lparr>class_name = ''preprocessor'', name = ''keeper'', pre = [], memoize = True,
      memoize_key = fields_key, generate_mapped_data_point = return_arg,
      cache = Map.empty\<rparr>"

definition marker :: "(world, ref, obj option) preprocessor" where
  "marker =
     \<lparr>class_name = ''preprocessor'', name = ''marker'', pre = [as_mapper 0 keeper],
      memoize = False, memoize_key = fields_key,
      generate_mapped_data_point = set_field ''seen'' ''yes'',
      cache = Map.empty\<rparr>"

text \<open>
  The world after \<open>keeper\<close> has been called on the data point of \<open>one_point\<close>: the copy it
  made is the object at address 1, and it is the cached value for the key of both objects.
\<close>

definition two_points :: world where
  "two_points =
     \<lparr>objs = [[(''t'', ''A'')], [(''t'', ''A'')]],
      caches = (\<lambda>i. Map.empty)(0 := [Some [(''t'', ''A'')] \<mapsto> Some 1])\<rparr>"

text \<open>
  The object at \<open>x\<close> is allocated, and the cache number \<open>i\<close> of the world does not hold
  it.
\<close>

definition unshared :: "nat \<Rightarrow> ref \<Rightarrow> world \<Rightarrow> bool" where
  "unshared i x w = (x < length (objs w) \<and> (\<forall>k. caches w i k \<noteq> Some (Some x)))"

text \<open>Base classes for the marker classes: methods are named by strings.\<close>

definition base_mapper_class :: "string py_class" where
  "base_mapper_class =
     Class ''BaseMapper'' None
       [''__call__'' \<mapsto> ''BaseMapper.__call__'', ''__repr__'' \<mapsto> ''BaseMapper.__repr__'']"

definition mapper_class :: "string py_class" where
  "mapper_class =
     Class ''Mapper'' (Some base_mapper_class)
       [''_generate_mapped_data_point'' \<mapsto> ''Mapper._generate_mapped_data_point'']"

text \<open>
  Python's root class, whose equality and hash go by the identity of the object, and a
  base class for \<^verbatim>\<open>preprocessor\<close> that defines neither.
\<close>

definition object_class :: "string py_class" where
  "object_class =
     Class ''object'' None
       [''__eq__'' \<mapsto> ''object.__eq__'', ''__hash__'' \<mapsto> ''object.__hash__'',
        ''__repr__'' \<mapsto> ''object.__repr__'']"

definition plain_lambda_mapper :: "string py_class" where
  "plain_lambda_mapper =
     Class ''lambda_mapper'' (Some object_class) [''__call__'' \<mapsto> ''lambda_mapper.__call__'']"

section \<open>Properties of \<^verbatim>\<open>__call__\<close>\<close>

lemma call_hit:
  "memoize self \<Longrightarrow> memoize_key self x w = (Inr k, w1) \<Longrightarrow> cache self k = Some v \<Longrightarrow>
   call deepcopy self x w = (Inr v, self, w1)"
  by (simp add: call_def)

lemma call_miss:
  "memoize self \<Longrightarrow> memoize_key self x w = (Inr k, w1) \<Longrightarrow> cache self k = None \<Longrightarrow>
   call deepcopy self x w =
     (case x_mapped deepcopy self x w1 of
        (Inl e, w2) \<Rightarrow> (Inl e, self, w2)
      | (Inr v, w2) \<Rightarrow> (Inr v, self\<lparr>cache := (cache self)(k \<mapsto> v)\<rparr>, w2))"
  by (simp add: call_def)

lemma call_key_raises:
  "memoize self \<Longrightarrow> memoize_key self x w = (Inl e, w1) \<Longrightarrow>
   call deepcopy self x w = (Inl e, self, w1)"
  by (simp add: call_def)

lemma call_off:
  "\<not> memoize self \<Longrightarrow>
   call deepcopy self x w =
     (case x_mapped deepcopy self x w of (r, w2) \<Rightarrow> (r, self, w2))"
  by (simp add: call_def split: prod.splits sum.splits)

lemma call_self_cases:
  assumes "call deepcopy self x w = (r, self', w')"
  shows "self' = self \<or>
    (\<exists>k v w1. memoize self \<and> memoize_key self x w = (Inr k, w1) \<and> cache self k = None \<and> r = Inr v \<and>
       self' = self\<lparr>cache := (cache self)(k \<mapsto> v)\<rparr>)"
  using assms
  by (auto simp: call_def split: if_splits prod.splits sum.splits option.splits)

lemma call_stores:
  assumes "memoize self" "memoize_key self x w = (Inr k, w0)"
    and "call deepcopy self x w = (Inr v, self', w')"
  shows "cache self' k = Some v \<and> memoize self' \<and> memoize_key self' = memoize_key self"
  using assms
  by (auto simp: call_def split: if_splits prod.splits sum.splits option.splits)


lemma x_mapped_ignores [simp]:
  "x_mapped deepcopy (self\<lparr>memoize_key := kf\<rparr>) = x_mapped deepcopy self"
  "x_mapped deepcopy (self\<lparr>cache := c\<rparr>) = x_mapped deepcopy self"
  "x_mapped deepcopy (self\<lparr>memoize := b\<rparr>) = x_mapped deepcopy self"
  "x_mapped deepcopy (self\<lparr>name := n\<rparr>) = x_mapped deepcopy self"
  "x_mapped deepcopy (self\<lparr>class_name := n\<rparr>) = x_mapped deepcopy self"
  by (simp_all add: x_mapped_def fun_eq_iff split: prod.splits sum.splits)

lemma run_pre_append:
  "run_pre (ms @ ns) v w =
     (case run_pre ms v w of (Inl e, w') \<Rightarrow> (Inl e, w') | (Inr a, w') \<Rightarrow> run_pre ns a w')"
  by (induction ms arbitrary: v w) (auto split: prod.splits sum.splits)

lemma run_pre_world:
  "(\<forall>m\<in>set ms. \<forall>v u. snd (mapper_call m v u) = u) \<Longrightarrow> snd (run_pre ms v w) = w"
proof (induction ms arbitrary: v)
  case Nil
  show ?case by simp
next
  case (Cons m ms)
  have "snd (mapper_call m v w) = w" using Cons.prems by simp
  moreover have "\<And>a. snd (run_pre ms a w) = w" using Cons by simp
  ultimately show ?case by (auto split: prod.splits sum.splits)
qed

lemma call_only_cache:
  "call deepcopy self x w = (r, self', w') \<Longrightarrow>
     self' = self\<lparr>cache := cache self'\<rparr> \<and> (cache self' \<noteq> cache self \<longrightarrow> memoize self)"
  by (auto simp: call_def split: if_splits prod.splits sum.splits option.splits)

lemma x_mapped_world:
  assumes "\<forall>v u. snd (deepcopy v u) = u" "\<forall>m\<in>set (pre self). \<forall>v u. snd (mapper_call m v u) = u"
    "\<forall>v u. snd (generate_mapped_data_point self v u) = u"
  shows "snd (x_mapped deepcopy self x w) = w"
proof -
  have a: "\<And>v u r u'. deepcopy v u = (r, u') \<Longrightarrow> u' = u" using assms(1) by (metis snd_conv)
  have b: "\<And>v u r u'. run_pre (pre self) v u = (r, u') \<Longrightarrow> u' = u"
    using run_pre_world [OF assms(2)] by (metis snd_conv)
  have c: "\<And>v u. snd (generate_mapped_data_point self v u) = u" using assms(3) by simp
  show ?thesis
    by (auto simp: x_mapped_def split: prod.splits sum.splits dest!: a b simp: c)
qed

lemma call_cache_grows:
  assumes "call deepcopy self x w = (r, self', w')"
  shows "(\<forall>k v. cache self k = Some v \<longrightarrow> cache self' k = Some v) \<and>
         (cache self' = cache self \<or> (\<exists>k v. cache self k = None \<and> cache self' = (cache self)(k \<mapsto> v)))"
proof -
  from call_self_cases [OF assms]
  consider "self' = self"
    | k v where "cache self k = None" "self' = self\<lparr>cache := (cache self)(k \<mapsto> v)\<rparr>"
    by blast
  then show ?thesis
  proof cases
    case 1
    then show ?thesis by simp
  next
    case 2
    then have "cache self' = (cache self)(k \<mapsto> v)" by simp
    with 2(1) show ?thesis by (metis fun_upd_other option.distinct(1))
  qed
qed

lemma calls_cache_le:
  "calls deepcopy self xs w = (self', w') \<Longrightarrow> cache self \<subseteq>\<^sub>m cache self'"
proof (induction xs arbitrary: self w)
  case Nil
  then show ?case by simp
next
  case (Cons x xs)
  obtain r s1 w1 where c: "call deepcopy self x w = (r, s1, w1)" by (cases "call deepcopy self x w") auto
  with Cons.prems have "calls deepcopy s1 xs w1 = (self', w')" by simp
  then have "cache s1 \<subseteq>\<^sub>m cache self'" by (rule Cons.IH)
  moreover have "cache self \<subseteq>\<^sub>m cache s1"
    using call_cache_grows [OF c] by (auto simp: map_le_def dom_def)
  ultimately show ?case by (rule map_le_trans [rotated])
qed

lemma call_again:
  assumes "memoize self" and "memoize_key self x1 w = (Inr k, w0)"
    and "call deepcopy self x1 w = (Inr v, self1, w1)"
    and "memoize_key self x2 w1 = (Inr k, w2)"
  shows "call deepcopy' self1 x2 w1 = (Inr v, self1, w2) \<and>
         call deepcopy' (self1\<lparr>pre := ps, generate_mapped_data_point := g\<rparr>) x2 w1 =
           (Inr v, self1\<lparr>pre := ps, generate_mapped_data_point := g\<rparr>, w2)"
proof -
  from call_stores [OF assms(1,2,3)]
  have c: "cache self1 k = Some v" and m: "memoize self1"
    and kf: "memoize_key self1 = memoize_key self" by simp_all
  from kf assms(4) have k2: "memoize_key self1 x2 w1 = (Inr k, w2)" by simp
  show ?thesis using call_hit [of _ x2 w1 k w2 v] m k2 c by simp
qed


text \<open>
  Claim C1. With memoization enabled, when the key derived from \<open>x\<close> is in the cache, the
  call returns the cached value at once: \<^verbatim>\<open>self\<close> is unchanged and the world is the one
  the key function left, whatever the deep copy, the pre-steps and the mapping function
  are, so none of them ran. This holds for a cached \<^verbatim>\<open>None\<close> (\<open>cache self k = Some None\<close>)
  as for any other value, while an absent key (\<open>cache self k = None\<close>) leads to the
  computation of \<^verbatim>\<open>x_mapped\<close>: the lookup tells the two apart.
\<close>

theorem cached_value_returned:
  "memoize self \<Longrightarrow> memoize_key self x w = (Inr k, w1) \<Longrightarrow>
   (cache self k = Some v \<longrightarrow>
      call deepcopy self x w = (Inr v, self, w1) \<and>
      call deepcopy' (self\<lparr>pre := ps, generate_mapped_data_point := g\<rparr>) x w =
        (Inr v, self\<lparr>pre := ps, generate_mapped_data_point := g\<rparr>, w1)) \<and>
   (cache self k = Some None \<longrightarrow> call deepcopy self x w = (Inr None, self, w1)) \<and>
   (cache self k = None \<longrightarrow>
      call deepcopy self x w =
        (case x_mapped deepcopy self x w1 of
           (Inl e, w2) \<Rightarrow> (Inl e, self, w2)
         | (Inr v, w2) \<Rightarrow> (Inr v, self\<lparr>cache := (cache self)(k \<mapsto> v)\<rparr>, w2)))"
  by (simp add: call_def)

theorem cached_value_returned_witness:
  "call return_arg (doubling\<lparr>cache := [Some 1 \<mapsto> None]\<rparr>) (Some 1) 0 =
     (Inr None, doubling\<lparr>cache := [Some 1 \<mapsto> None]\<rparr>, 0) \<and>
   call return_arg (doubling\<lparr>cache := [Some 1 \<mapsto> None]\<rparr>) (Some 2) 0 =
     (Inr (Some 4), doubling\<lparr>cache := [Some 1 \<mapsto> None, Some 2 \<mapsto> Some 4]\<rparr>, 1)"
  using cached_value_returned [where self = "doubling\<lparr>cache := [Some 1 \<mapsto> None]\<rparr>"
      and x = "Some 1" and w = 0 and k = "Some 1" and ?w1.0 = 0 and v = None
      and deepcopy = return_arg and deepcopy' = return_arg and ps = "[]"
      and g = "counted (map_option (\<lambda>n. 2 * n))"]
    cached_value_returned [where self = "doubling\<lparr>cache := [Some 1 \<mapsto> None]\<rparr>"
      and x = "Some 2" and w = 0 and k = "Some 2" and ?w1.0 = 0 and v = None
      and deepcopy = return_arg and deepcopy' = return_arg and ps = "[]"
      and g = "counted (map_option (\<lambda>n. 2 * n))"]
  by (simp add: doubling_def return_arg_def counted_def x_mapped_def)


text \<open>
  Claim C5. With memoization enabled, when a call on \<open>x\<close> returned \<open>v\<close> and the key of
  \<open>x\<close> is the same at the second call, the second call returns the same \<open>v\<close>, which is
  the value stored under the key. It changes neither \<^verbatim>\<open>self\<close> nor the world beyond what
  the key function does, whatever the deep copy, the pre-steps and the mapping function
  are: nothing is computed again.
\<close>

theorem second_call_returns_cached:
  assumes "memoize self" and "memoize_key self x w = (Inr k, w0)"
    and "call deepcopy self x w = (Inr v, self1, w1)"
    and "memoize_key self x w1 = (Inr k, w2)"
  shows "cache self1 k = Some v \<and>
         call deepcopy' self1 x w1 = (Inr v, self1, w2) \<and>
         call deepcopy' (self1\<lparr>pre := ps, generate_mapped_data_point := g\<rparr>) x w1 =
           (Inr v, self1\<lparr>pre := ps, generate_mapped_data_point := g\<rparr>, w2)"
  using call_again [OF assms] call_stores [OF assms(1,2,3)] by simp

theorem second_call_returns_cached_witness:
  "call return_arg doubling (Some 3) 0 = (Inr (Some 6), doubling\<lparr>cache := [Some 3 \<mapsto> Some 6]\<rparr>, 1) \<and>
   call return_arg (doubling\<lparr>cache := [Some 3 \<mapsto> Some 6]\<rparr>) (Some 3) 1 =
     (Inr (Some 6), doubling\<lparr>cache := [Some 3 \<mapsto> Some 6]\<rparr>, 1)"
proof -
  have first: "call return_arg doubling (Some 3) 0 =
      (Inr (Some 6), doubling\<lparr>cache := [Some 3 \<mapsto> Some 6]\<rparr>, 1)"
    by (simp add: call_def doubling_def return_arg_def counted_def x_mapped_def)
  have m: "memoize doubling" by (simp add: doubling_def)
  have k0: "memoize_key doubling (Some 3) 0 = (Inr (Some 3), 0)"
    by (simp add: doubling_def return_arg_def)
  have k1: "memoize_key doubling (Some 3) 1 = (Inr (Some 3), 1)"
    by (simp add: doubling_def return_arg_def)
  from second_call_returns_cached [OF m k0 first k1, where deepcopy' = return_arg] first
  show ?thesis by simp
qed


text \<open>
  Claim C8. With memoization enabled, when a call on \<open>x1\<close> returned \<open>v\<close> and \<open>x2\<close> has
  the key that \<open>x1\<close> had, the call on \<open>x2\<close> returns \<open>v\<close>, whatever else distinguishes
  \<open>x2\<close> from \<open>x1\<close>, and the deep copy, the pre-steps and the mapping function do not run
  on \<open>x2\<close>.
\<close>

theorem equal_keys_share_result:
  assumes "memoize self" and "memoize_key self x1 w = (Inr k, w0)"
    and "call deepcopy self x1 w = (Inr v, self1, w1)"
    and "memoize_key self x2 w1 = (Inr k, w2)"
  shows "call deepcopy' self1 x2 w1 = (Inr v, self1, w2) \<and>
         call deepcopy' (self1\<lparr>pre := ps, generate_mapped_data_point := g\<rparr>) x2 w1 =
           (Inr v, self1\<lparr>pre := ps, generate_mapped_data_point := g\<rparr>, w2)"
  using call_again [OF assms] by simp

theorem equal_keys_share_result_witness:
  "call return_arg (doubling\<lparr>memoize_key := last_digit\<rparr>) (Some 3) 0 =
     (Inr (Some 6), doubling\<lparr>memoize_key := last_digit, cache := [Some 3 \<mapsto> Some 6]\<rparr>, 1) \<and>
   call return_arg (doubling\<lparr>memoize_key := last_digit, cache := [Some 3 \<mapsto> Some 6]\<rparr>) (Some 13) 1 =
     (Inr (Some 6), doubling\<lparr>memoize_key := last_digit, cache := [Some 3 \<mapsto> Some 6]\<rparr>, 1)"
proof -
  let ?p = "doubling\<lparr>memoize_key := last_digit\<rparr>"
  have first: "call return_arg ?p (Some 3) 0 =
      (Inr (Some 6), doubling\<lparr>memoize_key := last_digit, cache := [Some 3 \<mapsto> Some 6]\<rparr>, 1)"
    by (simp add: call_def doubling_def return_arg_def last_digit_def counted_def x_mapped_def)
  have m: "memoize ?p" by (simp add: doubling_def)
  have k0: "memoize_key ?p (Some 3) 0 = (Inr (Some 3), 0)"
    by (simp add: last_digit_def)
  have k1: "memoize_key ?p (Some 13) 1 = (Inr (Some 3), 1)"
    by (simp add: last_digit_def)
  from equal_keys_share_result [OF m k0 first k1, where deepcopy' = return_arg] first
  show ?thesis by simp
qed

lemma call_world_pure:
  assumes "\<forall>v u. snd (deepcopy v u) = u" "\<forall>m\<in>set (pre self). \<forall>v u. snd (mapper_call m v u) = u"
    "\<forall>v u. snd (generate_mapped_data_point self v u) = u"
    "\<forall>v u. snd (memoize_key self v u) = u"
  shows "snd (snd (call deepcopy self x w)) = w"
proof -
  have xm: "\<And>u r u'. x_mapped deepcopy self x u = (r, u') \<Longrightarrow> u' = u"
    using x_mapped_world [OF assms(1,2,3)] by (metis snd_conv)
  have k: "\<And>r u'. memoize_key self x w = (r, u') \<Longrightarrow> u' = w"
    using assms(4) by (metis snd_conv)
  show ?thesis
    by (auto simp: call_def split: prod.splits sum.splits option.splits dest!: k dest: xm)
qed

lemma x_mapped_then_call:
  "x_mapped deepcopy self =
     then_call (then_call deepcopy (run_pre (pre self))) (generate_mapped_data_point self)"
  by (simp add: x_mapped_def then_call_def fun_eq_iff split: prod.splits sum.splits)

lemma run_pre_two: "run_pre [f1, f2] = then_call (mapper_call f1) (mapper_call f2)"
  by (simp add: then_call_def fun_eq_iff split: prod.splits sum.splits)

lemma then_call_assoc: "then_call (then_call f g) h = then_call f (then_call g h)"
  by (simp add: then_call_def fun_eq_iff split: prod.splits sum.splits)

lemma then_call_return: "then_call f return_arg = f"
  by (simp add: then_call_def return_arg_def fun_eq_iff split: prod.splits sum.splits)

lemma run_pre_nil: "run_pre [] = return_arg"
  by (simp add: return_arg_def fun_eq_iff)

lemma call_miss_then:
  assumes "\<not> memoize self \<and> w1 = w \<or> memoize self \<and> memoize_key self x w = (Inr k, w1) \<and> cache self k = None"
  shows "fst (call deepcopy self x w) = fst (x_mapped deepcopy self x w1) \<and>
         snd (snd (call deepcopy self x w)) = snd (x_mapped deepcopy self x w1)"
  using assms by (auto simp: call_def split: prod.splits sum.splits)

text \<open>
  Claim C2. On a cache miss or with memoization disabled, the call returns
  \<^verbatim>\<open>g(f2(f1(copy(x))))\<close> for the pre-steps \<^verbatim>\<open>[f1, f2]\<close> and the mapping function \<^verbatim>\<open>g\<close>: the
  value of \<^verbatim>\<open>x_mapped\<close> is the composition of the deep copy, the pre-steps in list order,
  each on the result of the previous one, and the mapping function last. With no pre-step
  it is \<^verbatim>\<open>g(copy(x))\<close>. With memoization disabled the call returns that value, in the
  world that the composition left; on a cache miss it returns that value computed in the
  world that the key function left.
\<close>

theorem call_is_composition:
  "(pre self = [f1, f2] \<longrightarrow>
      x_mapped deepcopy self =
        then_call (then_call (then_call deepcopy (mapper_call f1)) (mapper_call f2))
          (generate_mapped_data_point self)) \<and>
   (pre self = [] \<longrightarrow>
      x_mapped deepcopy self = then_call deepcopy (generate_mapped_data_point self)) \<and>
   (\<not> memoize self \<longrightarrow>
      call deepcopy self x w = (case x_mapped deepcopy self x w of (r, w') \<Rightarrow> (r, self, w'))) \<and>
   (memoize self \<and> memoize_key self x w = (Inr k, w1) \<and> cache self k = None \<longrightarrow>
      fst (call deepcopy self x w) = fst (x_mapped deepcopy self x w1) \<and>
      snd (snd (call deepcopy self x w)) = snd (x_mapped deepcopy self x w1))"
proof (intro conjI impI)
  assume "pre self = [f1, f2]"
  then show "x_mapped deepcopy self =
        then_call (then_call (then_call deepcopy (mapper_call f1)) (mapper_call f2))
          (generate_mapped_data_point self)"
    by (simp add: x_mapped_then_call run_pre_two then_call_assoc)
next
  assume "pre self = []"
  then show "x_mapped deepcopy self = then_call deepcopy (generate_mapped_data_point self)"
    by (simp add: x_mapped_then_call run_pre_nil then_call_return)
next
  assume "\<not> memoize self"
  then show "call deepcopy self x w = (case x_mapped deepcopy self x w of (r, w') \<Rightarrow> (r, self, w'))"
    by (rule call_off)
next
  assume a: "memoize self \<and> memoize_key self x w = (Inr k, w1) \<and> cache self k = None"
  then show "fst (call deepcopy self x w) = fst (x_mapped deepcopy self x w1)"
    using call_miss_then [of self w1 w x k deepcopy] by simp
  from a show "snd (snd (call deepcopy self x w)) = snd (x_mapped deepcopy self x w1)"
    using call_miss_then [of self w1 w x k deepcopy] by simp
qed

theorem call_is_composition_witness:
  "call deepcopy_record tagger (Some 0) one_point =
     (case then_call (then_call (then_call deepcopy_record (set_field ''a'' ''1''))
              (set_field ''a'' ''2'')) (set_field ''b'' ''3'') (Some 0) one_point of
        (r, w') \<Rightarrow> (r, tagger, w')) \<and>
   call deepcopy_record tagger (Some 0) one_point =
     (Inr (Some 1), tagger,
      \<lparr>objs = [[(''t'', ''A'')], [(''b'', ''3''), (''a'', ''2''), (''t'', ''A'')]],
       caches = (\<lambda>i. Map.empty)\<rparr>) \<and>
   call deepcopy_record (tagger\<lparr>pre := []\<rparr>) (Some 0) one_point =
     (Inr (Some 1), tagger\<lparr>pre := []\<rparr>,
      \<lparr>objs = [[(''t'', ''A'')], [(''b'', ''3''), (''t'', ''A'')]],
       caches = (\<lambda>i. Map.empty)\<rparr>)"
proof -
  have p: "pre tagger = [\<lparr>mapper_call = set_field ''a'' ''1'', mapper_repr = ''f1''\<rparr>,
             \<lparr>mapper_call = set_field ''a'' ''2'', mapper_repr = ''f2''\<rparr>]"
    and m: "\<not> memoize tagger" and g: "generate_mapped_data_point tagger = set_field ''b'' ''3''"
    by (simp_all add: tagger_def)
  from call_is_composition [of tagger "\<lparr>mapper_call = set_field ''a'' ''1'', mapper_repr = ''f1''\<rparr>"
      "\<lparr>mapper_call = set_field ''a'' ''2'', mapper_repr = ''f2''\<rparr>" deepcopy_record "Some 0" one_point]
    p m g
  have a: "call deepcopy_record tagger (Some 0) one_point =
     (case then_call (then_call (then_call deepcopy_record (set_field ''a'' ''1''))
              (set_field ''a'' ''2'')) (set_field ''b'' ''3'') (Some 0) one_point of
        (r, w') \<Rightarrow> (r, tagger, w'))" by simp
  have b: "then_call (then_call (then_call deepcopy_record (set_field ''a'' ''1''))
              (set_field ''a'' ''2'')) (set_field ''b'' ''3'') (Some 0) one_point =
     (Inr (Some 1),
      \<lparr>objs = [[(''t'', ''A'')], [(''b'', ''3''), (''a'', ''2''), (''t'', ''A'')]],
       caches = (\<lambda>i. Map.empty)\<rparr>)"
    by (simp add: then_call_def one_point_def deepcopy_record_def set_field_def)
  have c: "call deepcopy_record (tagger\<lparr>pre := []\<rparr>) (Some 0) one_point =
     (Inr (Some 1), tagger\<lparr>pre := []\<rparr>,
      \<lparr>objs = [[(''t'', ''A'')], [(''b'', ''3''), (''t'', ''A'')]],
       caches = (\<lambda>i. Map.empty)\<rparr>)"
    by (simp add: call_def x_mapped_def tagger_def one_point_def deepcopy_record_def set_field_def)
  from a b c show ?thesis by simp
qed

text \<open>
  Claim C4. An exception raised by the key function, by the deep copy, by a pre-step (the
  steps before it having returned) or by the mapping function is the exception that the
  call raises, and a call that raises leaves \<^verbatim>\<open>self\<close>, hence the cache, as it was.
\<close>

theorem exceptions_propagate:
  "(memoize self \<and> memoize_key self x w = (Inl e, w') \<longrightarrow>
      call deepcopy self x w = (Inl e, self, w')) \<and>
   ((\<not> memoize self \<and> w1 = w \<or>
     memoize self \<and> memoize_key self x w = (Inr k, w1) \<and> cache self k = None) \<and>
    deepcopy x w1 = (Inl e, w') \<longrightarrow>
      call deepcopy self x w = (Inl e, self, w')) \<and>
   ((\<not> memoize self \<and> w1 = w \<or>
     memoize self \<and> memoize_key self x w = (Inr k, w1) \<and> cache self k = None) \<and>
    deepcopy x w1 = (Inr c, w2) \<and> pre self = ms @ m # ns \<and>
    run_pre ms c w2 = (Inr a, w3) \<and> mapper_call m a w3 = (Inl e, w') \<longrightarrow>
      call deepcopy self x w = (Inl e, self, w')) \<and>
   ((\<not> memoize self \<and> w1 = w \<or>
     memoize self \<and> memoize_key self x w = (Inr k, w1) \<and> cache self k = None) \<and>
    deepcopy x w1 = (Inr c, w2) \<and> run_pre (pre self) c w2 = (Inr p, w3) \<and>
    generate_mapped_data_point self p w3 = (Inl e, w') \<longrightarrow>
      call deepcopy self x w = (Inl e, self, w')) \<and>
   (call deepcopy self x w = (Inl e, self', w'') \<longrightarrow> self' = self)"
proof (intro conjI impI)
  assume "memoize self \<and> memoize_key self x w = (Inl e, w')"
  then show "call deepcopy self x w = (Inl e, self, w')" by (simp add: call_key_raises)
next
  assume a: "(\<not> memoize self \<and> w1 = w \<or>
     memoize self \<and> memoize_key self x w = (Inr k, w1) \<and> cache self k = None) \<and>
    deepcopy x w1 = (Inl e, w')"
  then have "x_mapped deepcopy self x w1 = (Inl e, w')" by (simp add: x_mapped_def)
  with a show "call deepcopy self x w = (Inl e, self, w')"
    by (auto simp: call_off call_miss)
next
  assume a: "(\<not> memoize self \<and> w1 = w \<or>
     memoize self \<and> memoize_key self x w = (Inr k, w1) \<and> cache self k = None) \<and>
    deepcopy x w1 = (Inr c, w2) \<and> pre self = ms @ m # ns \<and>
    run_pre ms c w2 = (Inr a, w3) \<and> mapper_call m a w3 = (Inl e, w')"
  then have "run_pre (pre self) c w2 = (Inl e, w')" by (simp add: run_pre_append)
  with a have "x_mapped deepcopy self x w1 = (Inl e, w')" by (simp add: x_mapped_def)
  with a show "call deepcopy self x w = (Inl e, self, w')"
    by (auto simp: call_off call_miss)
next
  assume a: "(\<not> memoize self \<and> w1 = w \<or>
     memoize self \<and> memoize_key self x w = (Inr k, w1) \<and> cache self k = None) \<and>
    deepcopy x w1 = (Inr c, w2) \<and> run_pre (pre self) c w2 = (Inr p, w3) \<and>
    generate_mapped_data_point self p w3 = (Inl e, w')"
  then have "x_mapped deepcopy self x w1 = (Inl e, w')" by (simp add: x_mapped_def)
  with a show "call deepcopy self x w = (Inl e, self, w')"
    by (auto simp: call_off call_miss)
next
  assume "call deepcopy self x w = (Inl e, self', w'')"
  then show "self' = self" using call_self_cases [of deepcopy self x w "Inl e" self' w''] by auto
qed

theorem exceptions_propagate_witness:
  "call return_arg
     (doubling\<lparr>pre := [\<lparr>mapper_call = raising (Exception ''ValueError''), mapper_repr = ''f''\<rparr>]\<rparr>)
     (Some 3) 0 =
   (Inl (Exception ''ValueError''),
    doubling\<lparr>pre := [\<lparr>mapper_call = raising (Exception ''ValueError''), mapper_repr = ''f''\<rparr>]\<rparr>, 0) \<and>
   cache (doubling\<lparr>pre := [\<lparr>mapper_call = raising (Exception ''ValueError''), mapper_repr = ''f''\<rparr>]\<rparr>)
     (Some 3) = None \<and>
   call return_arg (doubling\<lparr>memoize_key := raising (Exception ''TypeError'')\<rparr>) (Some 3) 0 =
     (Inl (Exception ''TypeError''), doubling\<lparr>memoize_key := raising (Exception ''TypeError'')\<rparr>, 0)"
  using exceptions_propagate [where
      self = "doubling\<lparr>pre := [\<lparr>mapper_call = raising (Exception ''ValueError''), mapper_repr = ''f''\<rparr>]\<rparr>"
      and x = "Some 3" and w = 0 and ?w1.0 = 0 and k = "Some 3" and deepcopy = return_arg
      and c = "Some 3" and ?w2.0 = 0 and ms = "[]" and ns = "[]" and a = "Some 3" and ?w3.0 = 0
      and m = "\<lparr>mapper_call = raising (Exception ''ValueError''), mapper_repr = ''f''\<rparr>"
      and e = "Exception ''ValueError''" and w' = 0]
    exceptions_propagate [where
      self = "doubling\<lparr>memoize_key := raising (Exception ''TypeError'')\<rparr>"
      and x = "Some 3" and w = 0 and deepcopy = return_arg
      and e = "Exception ''TypeError''" and w' = 0]
  by (simp add: doubling_def return_arg_def raising_def)

text \<open>
  Claim C6. With memoization disabled the call is the computation of \<^verbatim>\<open>x_mapped\<close> and
  nothing else: \<^verbatim>\<open>self\<close> is returned as it was, and replacing the key function and the
  cache by any others changes neither the outcome nor the world, so the key function is
  not invoked and the cache is not read. Whatever the setting, a call changes no attribute
  of \<^verbatim>\<open>self\<close> but the cache, and changes the cache only when memoization is enabled; and
  when none of the callables changes the world, the call does not change it.
\<close>

theorem memoize_off_leaves_cache:
  "(\<not> memoize self \<longrightarrow>
      call deepcopy self x w = (case x_mapped deepcopy self x w of (r, w2) \<Rightarrow> (r, self, w2)) \<and>
      call deepcopy (self\<lparr>memoize_key := kf, cache := c\<rparr>) x w =
        (case call deepcopy self x w of (r, s, w') \<Rightarrow> (r, s\<lparr>memoize_key := kf, cache := c\<rparr>, w'))) \<and>
   (call deepcopy self x w = (r, self', w') \<longrightarrow>
      self' = self\<lparr>cache := cache self'\<rparr> \<and> (cache self' \<noteq> cache self \<longrightarrow> memoize self)) \<and>
   ((\<forall>v u. snd (deepcopy v u) = u) \<and> (\<forall>m\<in>set (pre self). \<forall>v u. snd (mapper_call m v u) = u) \<and>
    (\<forall>v u. snd (generate_mapped_data_point self v u) = u) \<and>
    (\<forall>v u. snd (memoize_key self v u) = u) \<longrightarrow>
      snd (snd (call deepcopy self x w)) = w)"
proof (intro conjI impI)
  assume "\<not> memoize self"
  then show "call deepcopy self x w = (case x_mapped deepcopy self x w of (r, w2) \<Rightarrow> (r, self, w2))"
    by (rule call_off)
next
  assume "\<not> memoize self"
  then show "call deepcopy (self\<lparr>memoize_key := kf, cache := c\<rparr>) x w =
        (case call deepcopy self x w of (r, s, w') \<Rightarrow> (r, s\<lparr>memoize_key := kf, cache := c\<rparr>, w'))"
    by (simp add: call_off split: prod.splits)
next
  assume "call deepcopy self x w = (r, self', w')"
  then show "self' = self\<lparr>cache := cache self'\<rparr>" by (simp add: call_only_cache)
next
  assume "call deepcopy self x w = (r, self', w')" "cache self' \<noteq> cache self"
  then show "memoize self" using call_only_cache [of deepcopy self x w r self' w'] by simp
next
  assume "(\<forall>v u. snd (deepcopy v u) = u) \<and> (\<forall>m\<in>set (pre self). \<forall>v u. snd (mapper_call m v u) = u) \<and>
    (\<forall>v u. snd (generate_mapped_data_point self v u) = u) \<and>
    (\<forall>v u. snd (memoize_key self v u) = u)"
  then show "snd (snd (call deepcopy self x w)) = w" by (simp add: call_world_pure)
qed

theorem memoize_off_leaves_cache_witness:
  "call return_arg
     (doubling\<lparr>memoize := False, memoize_key := raising (Exception ''TypeError''),
        cache := [Some 3 \<mapsto> Some 99]\<rparr>) (Some 3) 0 =
   (Inr (Some 6),
     doubling\<lparr>memoize := False, memoize_key := raising (Exception ''TypeError''),
        cache := [Some 3 \<mapsto> Some 99]\<rparr>, 1) \<and>
   snd (snd (call return_arg
     (doubling\<lparr>memoize := False, generate_mapped_data_point := return_arg\<rparr>) (Some 3) 7)) = 7"
proof -
  have a: "call return_arg
     (doubling\<lparr>memoize := False, memoize_key := raising (Exception ''TypeError''),
        cache := [Some 3 \<mapsto> Some 99]\<rparr>) (Some 3) 0 =
   (Inr (Some 6),
     doubling\<lparr>memoize := False, memoize_key := raising (Exception ''TypeError''),
        cache := [Some 3 \<mapsto> Some 99]\<rparr>, 1)"
    using memoize_off_leaves_cache [where self = "doubling\<lparr>memoize := False\<rparr>" and x = "Some 3"
      and w = 0 and deepcopy = return_arg and kf = "raising (Exception ''TypeError'')"
      and c = "[Some 3 \<mapsto> Some 99]"]
    by (simp add: doubling_def return_arg_def counted_def x_mapped_def)
  have b: "snd (snd (call return_arg
     (doubling\<lparr>memoize := False, generate_mapped_data_point := return_arg\<rparr>) (Some 3) 7)) = 7"
    using memoize_off_leaves_cache [THEN conjunct2, THEN conjunct2, rule_format,
      where self = "doubling\<lparr>memoize := False, generate_mapped_data_point := return_arg\<rparr>"
      and deepcopy = return_arg and x = "Some 3" and w = 7]
    by (simp add: doubling_def return_arg_def)
  from a b show ?thesis by simp
qed

text \<open>
  Claim C7. A call keeps every cache entry with its value, and adds at most one entry,
  under a key that was absent. Over any sequence of calls the cache at the start is
  contained in the cache at the end.
\<close>

theorem cache_only_grows:
  "(call deepcopy self x w = (r, self', w') \<longrightarrow>
      (\<forall>k v. cache self k = Some v \<longrightarrow> cache self' k = Some v) \<and>
      (cache self' = cache self \<or>
       (\<exists>k v. cache self k = None \<and> cache self' = (cache self)(k \<mapsto> v)))) \<and>
   (calls deepcopy self xs w = (self'', w'') \<longrightarrow> cache self \<subseteq>\<^sub>m cache self'')"
  using call_cache_grows [of deepcopy self x w r self' w'] calls_cache_le [of deepcopy self xs w self'' w'']
  by blast

theorem cache_only_grows_witness:
  "call return_arg (doubling\<lparr>cache := [Some 1 \<mapsto> Some 100]\<rparr>) (Some 2) 0 =
     (Inr (Some 4), doubling\<lparr>cache := [Some 1 \<mapsto> Some 100, Some 2 \<mapsto> Some 4]\<rparr>, 1) \<and>
   cache (doubling\<lparr>cache := [Some 1 \<mapsto> Some 100, Some 2 \<mapsto> Some 4]\<rparr>) (Some 1) = Some (Some 100) \<and>
   calls return_arg (doubling\<lparr>cache := [Some 1 \<mapsto> Some 100]\<rparr>) [Some 2, Some 1, Some 2] 0 =
     (doubling\<lparr>cache := [Some 1 \<mapsto> Some 100, Some 2 \<mapsto> Some 4]\<rparr>, 1) \<and>
   [Some 1 \<mapsto> Some 100] \<subseteq>\<^sub>m cache (doubling\<lparr>cache := [Some 1 \<mapsto> Some 100, Some 2 \<mapsto> Some (4::nat)]\<rparr>)"
proof -
  let ?d = "doubling\<lparr>cache := [Some 1 \<mapsto> Some 100]\<rparr>"
  let ?d' = "doubling\<lparr>cache := [Some 1 \<mapsto> Some 100, Some 2 \<mapsto> Some 4]\<rparr>"
  have one: "call return_arg ?d (Some 2) 0 = (Inr (Some 4), ?d', 1)"
    by (simp add: call_def doubling_def return_arg_def counted_def x_mapped_def)
  have two: "call return_arg ?d' (Some 1) 1 = (Inr (Some 100), ?d', 1)"
    by (simp add: call_def doubling_def return_arg_def counted_def x_mapped_def)
  have three: "call return_arg ?d' (Some 2) 1 = (Inr (Some 4), ?d', 1)"
    by (simp add: call_def doubling_def return_arg_def counted_def x_mapped_def)
  have many: "calls return_arg ?d [Some 2, Some 1, Some 2] 0 = (?d', 1)"
    by (simp only: calls.simps one two three prod.case)
  from cache_only_grows [of return_arg ?d "Some 2" 0 "Inr (Some 4)" ?d' 1
      "[Some 2, Some 1, Some 2]" ?d' 1] one many
  show ?thesis by simp
qed

section \<open>Isolation of the input\<close>

lemma keeps_offD:
  "keeps_off I x f v \<Longrightarrow> I w \<Longrightarrow> f v w = (r, w') \<Longrightarrow>
     I w' \<and> obj_at w' x = obj_at w x \<and> r \<noteq> Inr (Some x)"
  unfolding keeps_off_def by fastforce

lemma reads_onlyD:
  "reads_only I x f v \<Longrightarrow> I w \<Longrightarrow> f v w = (r, w') \<Longrightarrow> I w' \<and> obj_at w' x = obj_at w x"
  unfolding reads_only_def by fastforce

lemma run_pre_keeps_off:
  assumes steps: "\<forall>m\<in>set ms. \<forall>v. v \<noteq> Some x \<longrightarrow> keeps_off I x (mapper_call m) v"
  shows "I w \<Longrightarrow> v \<noteq> Some x \<Longrightarrow> run_pre ms v w = (r, w') \<Longrightarrow>
     I w' \<and> obj_at w' x = obj_at w x \<and> r \<noteq> Inr (Some x)"
  using steps
proof (induction ms arbitrary: v w)
  case Nil
  then show ?case by auto
next
  case (Cons m ms)
  obtain r1 w1 where s: "mapper_call m v w = (r1, w1)" by (cases "mapper_call m v w") auto
  have k: "keeps_off I x (mapper_call m) v" using Cons.prems by simp
  from keeps_offD [OF k Cons.prems(1) s]
  have 1: "I w1" "obj_at w1 x = obj_at w x" "r1 \<noteq> Inr (Some x)" by simp_all
  show ?case
  proof (cases r1)
    case (Inl e)
    with s Cons.prems(3) 1 show ?thesis by auto
  next
    case (Inr v1)
    with 1 have v1: "v1 \<noteq> Some x" by simp
    from Inr s Cons.prems(3) have "run_pre ms v1 w1 = (r, w')" by simp
    from Cons.IH [OF 1(1) v1 this] Cons.prems(4) 1(2) show ?thesis by simp
  qed
qed

lemma x_mapped_keeps_off:
  assumes "I w" and dc: "keeps_off I x deepcopy a"
    and steps: "\<forall>m\<in>set (pre self). \<forall>v. v \<noteq> Some x \<longrightarrow> keeps_off I x (mapper_call m) v"
    and g: "\<forall>v. v \<noteq> Some x \<longrightarrow> keeps_off I x (generate_mapped_data_point self) v"
    and run: "x_mapped deepcopy self a w = (r, w')"
  shows "I w' \<and> obj_at w' x = obj_at w x \<and> r \<noteq> Inr (Some x)"
proof -
  obtain r1 w1 where s1: "deepcopy a w = (r1, w1)" by (cases "deepcopy a w") auto
  from keeps_offD [OF dc \<open>I w\<close> s1]
  have 1: "I w1" "obj_at w1 x = obj_at w x" "r1 \<noteq> Inr (Some x)" by simp_all
  show ?thesis
  proof (cases r1)
    case (Inl e)
    with s1 run 1 show ?thesis by (auto simp: x_mapped_def)
  next
    case (Inr c)
    with 1 have c: "c \<noteq> Some x" by simp
    obtain r2 w2 where s2: "run_pre (pre self) c w1 = (r2, w2)"
      by (cases "run_pre (pre self) c w1") auto
    from run_pre_keeps_off [OF steps 1(1) c s2]
    have 2: "I w2" "obj_at w2 x = obj_at w1 x" "r2 \<noteq> Inr (Some x)" by simp_all
    show ?thesis
    proof (cases r2)
      case (Inl e)
      with Inr s1 s2 run 1 2 show ?thesis by (auto simp: x_mapped_def)
    next
      case (Inr p)
      with 2 have p: "p \<noteq> Some x" by simp
      from Inr \<open>r1 = Inr c\<close> s1 s2 run
      have s3: "generate_mapped_data_point self p w2 = (r, w')" by (simp add: x_mapped_def)
      from g p have "keeps_off I x (generate_mapped_data_point self) p" by simp
      from keeps_offD [OF this 2(1) s3] 1 2 show ?thesis by simp
    qed
  qed
qed

lemma call_keeps_off:
  assumes "I w" and dc: "keeps_off I x deepcopy a"
    and steps: "\<forall>m\<in>set (pre self). \<forall>v. v \<noteq> Some x \<longrightarrow> keeps_off I x (mapper_call m) v"
    and g: "\<forall>v. v \<noteq> Some x \<longrightarrow> keeps_off I x (generate_mapped_data_point self) v"
    and key: "memoize self \<longrightarrow> reads_only I x (memoize_key self) a"
    and run: "call deepcopy self a w = (r, self', w')"
  shows "I w' \<and> obj_at w' x = obj_at w x \<and>
         (\<not> memoize self \<or> (\<forall>k. cache self k \<noteq> Some (Some x)) \<longrightarrow>
            r \<noteq> Inr (Some x) \<and> ((\<forall>k. cache self k \<noteq> Some (Some x)) \<longrightarrow> (\<forall>k. cache self' k \<noteq> Some (Some x))))"
proof (cases "memoize self")
  case False
  obtain r1 w1 where s: "x_mapped deepcopy self a w = (r1, w1)"
    by (cases "x_mapped deepcopy self a w") auto
  with False run have "r = r1" "w' = w1" "self' = self" by (simp_all add: call_off)
  with x_mapped_keeps_off [OF \<open>I w\<close> dc steps g s] False show ?thesis by simp
next
  case True
  obtain rk wk where sk: "memoize_key self a w = (rk, wk)" by (cases "memoize_key self a w") auto
  from key True have "reads_only I x (memoize_key self) a" by simp
  from reads_onlyD [OF this \<open>I w\<close> sk] have k: "I wk" "obj_at wk x = obj_at w x" by simp_all
  show ?thesis
  proof (cases rk)
    case (Inl e)
    with True sk run k show ?thesis by (auto simp: call_key_raises)
  next
    case (Inr kk)
    show ?thesis
    proof (cases "cache self kk")
      case (Some v)
      with True Inr sk run have "r = Inr v" "self' = self" "w' = wk" by (simp_all add: call_hit)
      with k Some True show ?thesis by auto
    next
      case None
      obtain r1 w1 where s: "x_mapped deepcopy self a wk = (r1, w1)"
        by (cases "x_mapped deepcopy self a wk") auto
      from x_mapped_keeps_off [OF k(1) dc steps g s]
      have 1: "I w1" "obj_at w1 x = obj_at wk x" "r1 \<noteq> Inr (Some x)" by simp_all
      from True Inr sk None run s
      have "r = r1" "w' = w1" "self' = self \<or> (\<exists>v. r1 = Inr v \<and> self' = self\<lparr>cache := (cache self)(kk \<mapsto> v)\<rparr>)"
        by (auto simp: call_miss split: sum.splits)
      with 1 k show ?thesis by (auto split: if_splits)
    qed
  qed
qed

lemma deepcopy_record_keeps_off: "keeps_off (unshared i x) x deepcopy_record v"
  by (auto simp: keeps_off_def unshared_def deepcopy_record_def obj_at_def nth_append
      split: option.splits)

lemma set_field_keeps_off: "v \<noteq> Some x \<Longrightarrow> keeps_off (unshared i x) x (set_field f s) v"
  by (auto simp: keeps_off_def unshared_def set_field_def obj_at_def split: option.splits)

lemma return_arg_keeps_off: "v \<noteq> Some x \<Longrightarrow> keeps_off I x return_arg v"
  by (auto simp: keeps_off_def return_arg_def)

lemma fields_key_reads_only: "reads_only I x fields_key v"
  by (auto simp: reads_only_def fields_key_def split: option.splits)

lemma stored_call_keeps_off:
  assumes steps: "\<forall>s\<in>set (pre m). \<forall>v. v \<noteq> Some x \<longrightarrow> keeps_off (unshared i x) x (mapper_call s) v"
    and g: "\<forall>v. v \<noteq> Some x \<longrightarrow> keeps_off (unshared i x) x (generate_mapped_data_point m) v"
    and key: "memoize m \<longrightarrow> reads_only (unshared i x) x (memoize_key m) v"
    and v: "v \<noteq> Some x"
  shows "keeps_off (unshared i x) x (stored_call i m) v"
  unfolding keeps_off_def
proof (intro allI impI)
  fix w assume I: "unshared i x w"
  let ?m = "m\<lparr>cache := caches w i\<rparr>"
  obtain r m' w' where run: "call deepcopy_record ?m v w = (r, m', w')"
    by (cases "call deepcopy_record ?m v w") auto
  have c0: "\<forall>k. cache ?m k \<noteq> Some (Some x)" using I by (simp add: unshared_def)
  have "unshared i x w' \<and> obj_at w' x = obj_at w x \<and>
         (\<not> memoize ?m \<or> (\<forall>k. cache ?m k \<noteq> Some (Some x)) \<longrightarrow>
            r \<noteq> Inr (Some x) \<and> ((\<forall>k. cache ?m k \<noteq> Some (Some x)) \<longrightarrow> (\<forall>k. cache m' k \<noteq> Some (Some x))))"
    using steps g key by (intro call_keeps_off [OF I deepcopy_record_keeps_off _ _ _ run]) simp_all
  with c0 have 1: "unshared i x w'" "obj_at w' x = obj_at w x" "r \<noteq> Inr (Some x)"
    "\<forall>k. cache m' k \<noteq> Some (Some x)" by simp_all
  have "stored_call i m v w = (r, w'\<lparr>caches := (caches w')(i := cache m')\<rparr>)"
    using run by (simp add: stored_call_def)
  with 1 show "case stored_call i m v w of
       (r, w') \<Rightarrow> unshared i x w' \<and> obj_at w' x = obj_at w x \<and> r \<noteq> Inr (Some x)"
    by (simp add: unshared_def obj_at_def)
qed

lemma keeper_keeps_off: "v \<noteq> Some x \<Longrightarrow> keeps_off (unshared 0 x) x (stored_call 0 keeper) v"
  by (rule stored_call_keeps_off)
     (simp_all add: keeper_def return_arg_keeps_off fields_key_reads_only)

text \<open>
  Claim C3, as amended. The claim is that no call mutates its input \<open>x\<close> and that, with
  memoization disabled, no call returns \<open>x\<close> itself. The call hands the deep copy, never
  \<open>x\<close>, to the first transformation, and each transformation receives what the previous
  one returned. So the claim holds when the deep copy, the pre-steps, the mapping function
  and the key function keep away from \<open>x\<close>: in every world that satisfies an invariant
  \<open>I\<close>, the deep copy of \<open>x\<close> and every transformation applied to a value other than
  \<open>x\<close> keep \<open>I\<close>, leave the object at \<open>x\<close> as it is and do not return \<open>x\<close>, and the
  key function keeps \<open>I\<close> and leaves the object at \<open>x\<close> as it is. A memoizing pre-step
  keeps away from \<open>x\<close> as long as its cache does not hold \<open>x\<close> (the invariant
  \<open>unshared\<close>).
\<close>

theorem copy_isolates:
  assumes "I w"
    and "keeps_off I x deepcopy (Some x)"
    and "\<forall>m\<in>set (pre self). \<forall>v. v \<noteq> Some x \<longrightarrow> keeps_off I x (mapper_call m) v"
    and "\<forall>v. v \<noteq> Some x \<longrightarrow> keeps_off I x (generate_mapped_data_point self) v"
    and "memoize self \<longrightarrow> reads_only I x (memoize_key self) (Some x)"
    and "call deepcopy self (Some x) w = (r, self', w')"
  shows "I w' \<and> obj_at w' x = obj_at w x \<and> (\<not> memoize self \<longrightarrow> r \<noteq> Inr (Some x))"
  using call_keeps_off [OF assms] by simp

theorem copy_isolates_witness:
  "unshared 0 0 two_points \<and>
   call deepcopy_record marker (Some 0) two_points =
     (Inr (Some 1), marker,
      two_points\<lparr>objs := [[(''t'', ''A'')], [(''seen'', ''yes''), (''t'', ''A'')], [(''t'', ''A'')]]\<rparr>) \<and>
   obj_at (two_points\<lparr>objs := [[(''t'', ''A'')], [(''seen'', ''yes''), (''t'', ''A'')], [(''t'', ''A'')]]\<rparr>) 0 =
     obj_at two_points 0"
proof -
  have I: "unshared 0 0 two_points" by (simp add: unshared_def two_points_def)
  have run: "call deepcopy_record marker (Some 0) two_points =
     (Inr (Some 1), marker,
      two_points\<lparr>objs := [[(''t'', ''A'')], [(''seen'', ''yes''), (''t'', ''A'')], [(''t'', ''A'')]]\<rparr>)"
    by (simp add: stored_call_def as_mapper_def call_def x_mapped_def keeper_def marker_def
      two_points_def deepcopy_record_def fields_key_def return_arg_def set_field_def)
  have steps: "\<forall>m\<in>set (pre marker). \<forall>v. v \<noteq> Some 0 \<longrightarrow> keeps_off (unshared 0 0) 0 (mapper_call m) v"
    by (simp add: marker_def as_mapper_def keeper_keeps_off)
  have g: "\<forall>v. v \<noteq> Some 0 \<longrightarrow> keeps_off (unshared 0 0) 0 (generate_mapped_data_point marker) v"
    by (simp add: marker_def set_field_keeps_off)
  have key: "memoize marker \<longrightarrow> reads_only (unshared 0 0) 0 (memoize_key marker) (Some 0)"
    by (simp add: marker_def)
  from copy_isolates [OF I deepcopy_record_keeps_off steps g key run] I run
  show ?thesis by simp
qed

text \<open>
  The claim C3 as stated fails when the cache of a memoizing pre-step holds the input
  itself. Calling \<open>keeper\<close> on the data point at address 0 returns its copy, the object at
  address 1, and caches it. Calling \<open>marker\<close>, which has memoization disabled and
  \<open>keeper\<close> as pre-step, on the object at address 1 copies it; the key of the copy is
  in the cache of \<open>keeper\<close>, which returns the cached object at address 1; the mapping
  function of \<open>marker\<close> marks that object in place and returns it. The input has a new
  field after the call, and the call returned the input.
\<close>

theorem shared_cached_object_counterexample:
  "stored_call 0 keeper (Some 0) one_point = (Inr (Some 1), two_points) \<and>
   \<not> memoize marker \<and>
   call deepcopy_record marker (Some 1) two_points =
     (Inr (Some 1), marker,
      two_points\<lparr>objs := [[(''t'', ''A'')], [(''seen'', ''yes''), (''t'', ''A'')], [(''t'', ''A'')]]\<rparr>) \<and>
   obj_at two_points 1 = Some [(''t'', ''A'')] \<and>
   obj_at (two_points\<lparr>objs := [[(''t'', ''A'')], [(''seen'', ''yes''), (''t'', ''A'')], [(''t'', ''A'')]]\<rparr>) 1 =
     Some [(''seen'', ''yes''), (''t'', ''A'')]"
  by (simp add: stored_call_def as_mapper_def call_def x_mapped_def keeper_def marker_def
      one_point_def two_points_def deepcopy_record_def fields_key_def return_arg_def
      set_field_def obj_at_def)

section \<open>The representation and the marker classes\<close>

lemma run_pre_repr_update:
  "run_pre (map (mapper_repr_update h) ms) = run_pre ms"
proof (induction ms)
  case Nil
  show ?case by (simp add: fun_eq_iff)
next
  case (Cons m ms)
  then show ?case by (simp add: fun_eq_iff split: prod.splits sum.splits)
qed

lemma x_mapped_repr_update:
  "x_mapped deepcopy (self\<lparr>class_name := c, name := n, pre := map (mapper_repr_update h) (pre self)\<rparr>) =
   x_mapped deepcopy self"
  by (simp add: x_mapped_def fun_eq_iff run_pre_repr_update split: prod.splits sum.splits)

lemma join_concat:
  "rs \<noteq> [] \<Longrightarrow> join sep rs = concat (map (\<lambda>r. r @ sep) (butlast rs)) @ last rs"
  by (induction sep rs rule: join.induct) simp_all

lemma join_contains: "r \<in> set rs \<Longrightarrow> \<exists>a b. join sep rs = a @ r @ b"
proof (induction sep rs rule: join.induct)
  case (1 sep)
  then show ?case by simp
next
  case (2 sep s)
  then have "join sep [s] = [] @ r @ []" by simp
  then show ?case by blast
next
  case (3 sep s t ss)
  show ?case
  proof (cases "r = s")
    case True
    then have "join sep (s # t # ss) = [] @ r @ (sep @ join sep (t # ss))" by simp
    then show ?thesis by blast
  next
    case False
    with 3 obtain a b where "join sep (t # ss) = a @ r @ b" by auto
    then have "join sep (s # t # ss) = (s @ sep @ a) @ r @ b" by simp
    then show ?thesis by blast
  qed
qed

lemma repr_nonempty:
  assumes "pre self \<noteq> []"
  shows "repr self =
      class_name self @ '' '' @ name self @ '', Pre: ['' @
      concat (map (\<lambda>m. mapper_repr m @ '', '') (butlast (pre self))) @
      mapper_repr (last (pre self)) @ '']''"
proof -
  have "map mapper_repr (pre self) \<noteq> []" using assms by simp
  from join_concat [OF this, of "'', ''"]
  have "join '', '' (map mapper_repr (pre self)) =
      concat (map (\<lambda>m. mapper_repr m @ '', '') (butlast (pre self))) @ mapper_repr (last (pre self))"
    using assms by (simp add: map_butlast [symmetric] last_map comp_def)
  then show ?thesis by (simp add: repr_def list_repr_def)
qed

lemma repr_contains_pre:
  assumes "m \<in> set (pre self)"
  shows "\<exists>a b. repr self = a @ mapper_repr m @ b"
proof -
  from assms have "mapper_repr m \<in> set (map mapper_repr (pre self))" by simp
  from join_contains [OF this, of "'', ''"]
  obtain a b where "join '', '' (map mapper_repr (pre self)) = a @ mapper_repr m @ b" by blast
  then have "repr self =
      (class_name self @ '' '' @ name self @ '', Pre: ['' @ a) @ mapper_repr m @ (b @ '']'')"
    by (simp add: repr_def list_repr_def)
  then show ?thesis by blast
qed

text \<open>
  Claim C9. The representation of an instance is its class name, a space, its name and
  \<^verbatim>\<open>", Pre: "\<close> followed by the list of its pre-steps: between square brackets, the
  representation of every pre-step, in list order, each but the last followed by a comma
  and a space. With no pre-step the list is \<^verbatim>\<open>[]\<close> and the segment is still there. So
  the class name, the name and the representation of every pre-step occur in it. The
  representation is not used for equality or hashing: the class \<^verbatim>\<open>preprocessor\<close> defines
  \<^verbatim>\<open>__call__\<close> and \<^verbatim>\<open>__repr__\<close> and nothing else, so that \<^verbatim>\<open>__eq__\<close> and \<^verbatim>\<open>__hash__\<close> are
  those of its base class, whatever its \<^verbatim>\<open>__repr__\<close> is; and \<^verbatim>\<open>__call__\<close>, where the
  memoization keys are hashed and compared, behaves the same whatever the class name, the
  name and the representations of the pre-steps are.
\<close>

theorem repr_format:
  "(pre self = [] \<longrightarrow> repr self = class_name self @ '' '' @ name self @ '', Pre: []'') \<and>
   (pre self \<noteq> [] \<longrightarrow>
      repr self =
        class_name self @ '' '' @ name self @ '', Pre: ['' @
        concat (map (\<lambda>m. mapper_repr m @ '', '') (butlast (pre self))) @
        mapper_repr (last (pre self)) @ '']'') \<and>
   (\<exists>b. repr self = class_name self @ b) \<and>
   (\<exists>a b. repr self = a @ name self @ b) \<and>
   (\<forall>m\<in>set (pre self). \<exists>a b. repr self = a @ mapper_repr m @ b) \<and>
   lookup_method (preprocessor_class lambda_mapper call_method repr_method) ''__repr__'' =
     Some repr_method \<and>
   lookup_method (preprocessor_class lambda_mapper call_method repr_method) ''__eq__'' =
     lookup_method lambda_mapper ''__eq__'' \<and>
   lookup_method (preprocessor_class lambda_mapper call_method repr_method) ''__hash__'' =
     lookup_method lambda_mapper ''__hash__'' \<and>
   (a \<noteq> ''__call__'' \<and> a \<noteq> ''__repr__'' \<longrightarrow>
      lookup_method (preprocessor_class lambda_mapper call_method repr_method) a =
        lookup_method lambda_mapper a) \<and>
   call deepcopy (self\<lparr>class_name := c, name := n, pre := map (mapper_repr_update h) (pre self)\<rparr>) x w =
     (case call deepcopy self x w of
        (r, s, w') \<Rightarrow> (r, s\<lparr>class_name := c, name := n, pre := map (mapper_repr_update h) (pre self)\<rparr>, w'))"
proof (intro conjI impI ballI)
  assume "pre self = []"
  then show "repr self = class_name self @ '' '' @ name self @ '', Pre: []''"
    by (simp add: repr_def list_repr_def)
next
  assume "pre self \<noteq> []"
  then show "repr self =
        class_name self @ '' '' @ name self @ '', Pre: ['' @
        concat (map (\<lambda>m. mapper_repr m @ '', '') (butlast (pre self))) @
        mapper_repr (last (pre self)) @ '']''"
    by (rule repr_nonempty)
next
  show "\<exists>b. repr self = class_name self @ b" by (simp add: repr_def)
next
  have "repr self = (class_name self @ '' '') @ name self @
      ('', Pre: '' @ list_repr (map mapper_repr (pre self)))"
    by (simp add: repr_def)
  then show "\<exists>a b. repr self = a @ name self @ b" by blast
next
  fix m assume "m \<in> set (pre self)"
  then show "\<exists>a b. repr self = a @ mapper_repr m @ b" by (rule repr_contains_pre)
next
  show "lookup_method (preprocessor_class lambda_mapper call_method repr_method) ''__repr__'' =
     Some repr_method"
    by (simp add: preprocessor_class_def)
next
  show "lookup_method (preprocessor_class lambda_mapper call_method repr_method) ''__eq__'' =
     lookup_method lambda_mapper ''__eq__''"
    by (simp add: preprocessor_class_def)
next
  show "lookup_method (preprocessor_class lambda_mapper call_method repr_method) ''__hash__'' =
     lookup_method lambda_mapper ''__hash__''"
    by (simp add: preprocessor_class_def)
next
  assume "a \<noteq> ''__call__'' \<and> a \<noteq> ''__repr__''"
  then show "lookup_method (preprocessor_class lambda_mapper call_method repr_method) a =
        lookup_method lambda_mapper a"
    by (simp add: preprocessor_class_def)
next
  show "call deepcopy (self\<lparr>class_name := c, name := n, pre := map (mapper_repr_update h) (pre self)\<rparr>) x w =
     (case call deepcopy self x w of
        (r, s, w') \<Rightarrow> (r, s\<lparr>class_name := c, name := n, pre := map (mapper_repr_update h) (pre self)\<rparr>, w'))"
    by (simp add: call_def x_mapped_repr_update split: prod.splits sum.splits option.splits)
qed

theorem repr_format_witness:
  "repr keeper = ''preprocessor keeper, Pre: []'' \<and>
   repr marker = ''preprocessor marker, Pre: [preprocessor keeper, Pre: []]'' \<and>
   repr (tagger\<lparr>pre := pre tagger @ [\<lparr>mapper_call = return_arg, mapper_repr = ''f3''\<rparr>]\<rparr>) =
     ''preprocessor tagger, Pre: [f1, f2, f3]'' \<and>
   lookup_method
     (preprocessor_class plain_lambda_mapper ''preprocessor.__call__'' ''preprocessor.__repr__'')
     ''__repr__'' = Some ''preprocessor.__repr__'' \<and>
   lookup_method
     (preprocessor_class plain_lambda_mapper ''preprocessor.__call__'' ''preprocessor.__repr__'')
     ''__eq__'' = Some ''object.__eq__'' \<and>
   lookup_method
     (preprocessor_class plain_lambda_mapper ''preprocessor.__call__'' ''preprocessor.__repr__'')
     ''__hash__'' = Some ''object.__hash__''"
proof -
  note empty = repr_format [THEN conjunct1, rule_format]
  note nonempty = repr_format [THEN conjunct2, THEN conjunct1, rule_format]
  note cls = repr_format [THEN conjunct2, THEN conjunct2, THEN conjunct2, THEN conjunct2,
      THEN conjunct2]
  have "pre keeper = []" by (simp add: keeper_def)
  from empty [OF this]
  have k: "repr keeper = ''preprocessor keeper, Pre: []''"
    by (simp add: keeper_def)
  have "pre marker \<noteq> []" by (simp add: marker_def)
  from nonempty [OF this] k
  have m: "repr marker = ''preprocessor marker, Pre: [preprocessor keeper, Pre: []]''"
    by (simp add: marker_def as_mapper_def)
  let ?t = "tagger\<lparr>pre := pre tagger @ [\<lparr>mapper_call = return_arg, mapper_repr = ''f3''\<rparr>]\<rparr>"
  have "pre ?t \<noteq> []" by simp
  from nonempty [OF this]
  have t: "repr ?t = ''preprocessor tagger, Pre: [f1, f2, f3]''"
    by (simp add: tagger_def)
  from cls [THEN conjunct1,
      of plain_lambda_mapper "''preprocessor.__call__''" "''preprocessor.__repr__''"]
  have r: "lookup_method
     (preprocessor_class plain_lambda_mapper ''preprocessor.__call__'' ''preprocessor.__repr__'')
     ''__repr__'' = Some ''preprocessor.__repr__''" .
  from cls [THEN conjunct2, THEN conjunct1,
      of plain_lambda_mapper "''preprocessor.__call__''" "''preprocessor.__repr__''"]
  have e: "lookup_method
     (preprocessor_class plain_lambda_mapper ''preprocessor.__call__'' ''preprocessor.__repr__'')
     ''__eq__'' = Some ''object.__eq__''"
    by (simp add: plain_lambda_mapper_def object_class_def)
  from cls [THEN conjunct2, THEN conjunct2, THEN conjunct1,
      of plain_lambda_mapper "''preprocessor.__call__''" "''preprocessor.__repr__''"]
  have h: "lookup_method
     (preprocessor_class plain_lambda_mapper ''preprocessor.__call__'' ''preprocessor.__repr__'')
     ''__hash__'' = Some ''object.__hash__''"
    by (simp add: plain_lambda_mapper_def object_class_def)
  from k m t r e h show ?thesis by simp
qed

text \<open>
  Claim C10. \<^verbatim>\<open>Preprocessor\<close> and \<^verbatim>\<open>LambdaPreprocessor\<close> define no method: looking up any
  method on them gives what the lookup on \<^verbatim>\<open>Mapper\<close> and on \<^verbatim>\<open>LambdaMapper\<close> gives,
  whatever these base classes define. What distinguishes them is their name.
\<close>

theorem marker_classes_add_nothing:
  "lookup_method (Preprocessor Mapper) a = lookup_method Mapper a \<and>
   lookup_method (LambdaPreprocessor LambdaMapper) a = lookup_method LambdaMapper a"
  by (simp add: Preprocessor_def LambdaPreprocessor_def)

theorem marker_classes_add_nothing_witness:
  "lookup_method (Preprocessor mapper_class) ''__call__'' = Some ''BaseMapper.__call__'' \<and>
   lookup_method (Preprocessor mapper_class) ''_generate_mapped_data_point'' =
     Some ''Mapper._generate_mapped_data_point'' \<and>
   lookup_method (Preprocessor mapper_class) ''reset'' = None \<and>
   lookup_method (preprocessor_class mapper_class ''preprocessor.__call__'' ''preprocessor.__repr__'')
     ''__call__'' = Some ''preprocessor.__call__''"
  using marker_classes_add_nothing [THEN conjunct1, of mapper_class "''__call__''"]
    marker_classes_add_nothing [THEN conjunct1, of mapper_class "''_generate_mapped_data_point''"]
    marker_classes_add_nothing [THEN conjunct1, of mapper_class "''reset''"]
  by (simp add: mapper_class_def base_mapper_class_def preprocessor_class_def)

end
